theory Spec2Isabelle
  imports Main "HOL-Library.Sublist"
begin

section \<open>Python strings\<close>

text \<open>
  A Python \<open>str\<close> is modelled as a \<open>string\<close>; a character stands for a code point
  below 256. The functions of this section are the string operations that \<open>anu.py\<close>
  calls: \<open>str.replace\<close>, \<open>str.lower\<close>, \<open>str.strip\<close>, the operator \<open>in\<close> on
  strings and the decimal rendering of an integer inside an f-string.
\<close>

text \<open>
  \<open>s.replace(old, new)\<close>: the occurrences of \<open>old\<close> in \<open>s\<close> are replaced from left
  to right, without overlap. With an empty \<open>old\<close> Python puts \<open>new\<close> before every
  character and at the end.
\<close>

function str_replace :: "string \<Rightarrow> string \<Rightarrow> string \<Rightarrow> string" where
  "str_replace old new s =
     (if old = [] then concat (map (\<lambda>c. new @ [c]) s) @ new
      else if s = [] then []
      else if take (length old) s = old
        then new @ str_replace old new (drop (length old) s)
      else hd s # str_replace old new (tl s))"
  by pat_completeness auto
termination
  by (relation "measure (\<lambda>(old, new, s). length s)") auto

declare str_replace.simps [simp del]

text \<open>
  \<open>s.lower()\<close> on code points below 256: the letters A to Z and the upper-case
  letters of Latin-1 (192 to 222, without the multiplication sign 215) move up by 32.
\<close>

definition char_lower :: "char \<Rightarrow> char" where
  "char_lower c =
     (let n = (of_char c :: nat) in
      if (65 \<le> n \<and> n \<le> 90) \<or> (192 \<le> n \<and> n \<le> 222 \<and> n \<noteq> 215)
      then char_of (n + 32) else c)"

definition str_lower :: "string \<Rightarrow> string" where
  "str_lower s = map char_lower s"

text \<open>
  \<open>s.strip()\<close> removes the white space at both ends. Below 256 Python's white space
  is 9 to 13, 28 to 32, 133 and 160.
\<close>

definition char_isspace :: "char \<Rightarrow> bool" where
  "char_isspace c =
     (let n = (of_char c :: nat) in
      (9 \<le> n \<and> n \<le> 13) \<or> (28 \<le> n \<and> n \<le> 32) \<or> n = 133 \<or> n = 160)"

definition str_strip :: "string \<Rightarrow> string" where
  "str_strip s = rev (dropWhile char_isspace (rev (dropWhile char_isspace s)))"

text \<open>\<open>sub in s\<close> for two strings: \<open>sub\<close> occurs in \<open>s\<close> as a contiguous run.\<close>

fun str_in :: "string \<Rightarrow> string \<Rightarrow> bool" where
  "str_in sub [] = (sub = [])"
| "str_in sub (c # cs) = (prefix sub (c # cs) \<or> str_in sub cs)"

text \<open>\<open>str(n)\<close> for an integer, as an f-string renders it: decimal, with a minus sign.\<close>

fun str_nat :: "nat \<Rightarrow> string" where
  "str_nat n =
     (if n < 10 then [''0123456789'' ! n]
      else str_nat (n div 10) @ [''0123456789'' ! (n mod 10)])"

declare str_nat.simps [simp del]

definition str_int :: "int \<Rightarrow> string" where
  "str_int i = (if i < 0 then CHR ''-'' # str_nat (nat (- i)) else str_nat (nat i))"

section \<open>The network and the log of calls\<close>

text \<open>
  An exception is described by what the \<open>except\<close> clauses of \<open>anu.py\<close> ask of it:
  whether it is an instance of \<open>requests.exceptions.Timeout\<close>, of
  \<open>requests.exceptions.ConnectionError\<close>, of \<open>requests.exceptions.RequestException\<close>
  (the clauses of \<open>check_pdf_exists\<close>) and of \<open>Exception\<close> (the clause of line 234),
  and its \<open>str\<close>. A \<open>ConnectTimeout\<close> has all four flags; a \<open>KeyboardInterrupt\<close> has
  none.
\<close>

record exc =
  is_Timeout :: bool
  is_ConnectionError :: bool
  is_RequestException :: bool
  is_Exception :: bool
  exc_str :: string

text \<open>
  What \<open>time.sleep\<close> raises: \<open>ValueError\<close> for a negative argument, \<open>OverflowError\<close>
  for one that does not fit the 64-bit count of nanoseconds, and \<open>OSError\<close> when the
  operating system refuses the deadline. None of them is a request exception.
\<close>

definition ValueError :: exc where
  "ValueError =
     \<lparr>is_Timeout = False, is_ConnectionError = False, is_RequestException = False,
      is_Exception = True, exc_str = ''sleep length must be non-negative''\<rparr>"

definition OverflowError :: exc where
  "OverflowError =
     \<lparr>is_Timeout = False, is_ConnectionError = False, is_RequestException = False,
      is_Exception = True, exc_str = ''timestamp too large to convert to C PyTime_t''\<rparr>"

definition OSError :: exc where
  "OSError =
     \<lparr>is_Timeout = False, is_ConnectionError = False, is_RequestException = False,
      is_Exception = True, exc_str = ''[Errno 22] Invalid argument''\<rparr>"

text \<open>
  The exceptions of the transport are the instances of \<open>RequestException\<close>;
  \<open>Timeout\<close> and \<open>ConnectionError\<close> are subclasses of it.
\<close>

definition transport_exc :: "exc \<Rightarrow> bool" where
  "transport_exc e = (is_Timeout e \<or> is_ConnectionError e \<or> is_RequestException e)"

text \<open>
  The response of \<open>requests.head\<close>: the status code and the headers. The headers of
  \<open>requests\<close> are looked up without regard to case; the map is keyed by the
  lower-case header name.
\<close>

record response =
  status_code :: int
  headers :: "string \<rightharpoonup> string"

datatype head_result = Response response | Raise exc

text \<open>
  The calls a run makes, in order: \<open>email_to_filename(email)\<close>,
  \<open>check_pdf_exists(email, event_code)\<close>, \<open>requests.head(url, ...)\<close> and a
  \<open>time.sleep(d)\<close> that slept. Console output (\<open>print_colored\<close>) is not modelled.
\<close>

datatype call =
  Filename_call string
| Check_call string string
| Head_call string
| Sleep_call int

text \<open>
  The world a run acts on: \<open>net w k url\<close> is what the \<open>k\<close>-th next call of
  \<open>requests.head\<close> gives when it is made on \<open>url\<close> (\<open>k = 0\<close> for the next call), and
  \<open>calls w\<close> is the log of the calls made so far.
\<close>

record world =
  net :: "nat \<Rightarrow> string \<Rightarrow> head_result"
  calls :: "call list"

definition log_call :: "call \<Rightarrow> world \<Rightarrow> world" where
  "log_call c w = w\<lparr>calls := calls w @ [c]\<rparr>"

text \<open>\<open>requests.head(url, timeout=10, allow_redirects=True)\<close>.\<close>

definition requests_head :: "string \<Rightarrow> world \<Rightarrow> head_result \<times> world" where
  "requests_head url w =
     (net w 0 url, log_call (Head_call url) (w\<lparr>net := (\<lambda>k. net w (Suc k))\<rparr>))"

text \<open>
  \<open>time.sleep(d)\<close> for an integer \<open>d\<close>, as CPython on 64-bit Linux does it: a negative
  \<open>d\<close> raises \<open>ValueError\<close>, a \<open>d\<close> above 9223372036 seconds (more than
  \<open>2^63 - 1\<close> nanoseconds) raises \<open>OverflowError\<close>, and 9223372036 itself raises
  \<open>OSError\<close>, since the deadline, the clock plus \<open>d\<close>, is out of range. A call that
  raises does not sleep. \<open>accepts_delay d\<close> says that \<open>time.sleep(d)\<close> sleeps.
\<close>

definition accepts_delay :: "int \<Rightarrow> bool" where
  "accepts_delay d = (0 \<le> d \<and> d < 9223372036)"

definition time_sleep :: "int \<Rightarrow> world \<Rightarrow> exc option \<times> world" where
  "time_sleep d w =
     (if d < 0 then (Some ValueError, w)
      else if 9223372036 < d then (Some OverflowError, w)
      else if d = 9223372036 then (Some OSError, w)
      else (None, log_call (Sleep_call d) w))"

section \<open>The address and the probe\<close>

text \<open>\<open>email_to_filename\<close> (lines 16 to 26): only \<open>@\<close> is replaced.\<close>

definition email_to_filename :: "string \<Rightarrow> string" where
  "email_to_filename email = str_replace ''@'' ''_'' email"

text \<open>The f-string of line 34.\<close>

definition url_of :: "string \<Rightarrow> string \<Rightarrow> string" where
  "url_of event_code email_filename =
     ''https://bbpvpbekasi.kemnaker.go.id/bulanvokasi/sertifikatbv/'' @ event_code @ ''/''
       @ email_filename @ ''.pdf''"

text \<open>
  What \<open>check_pdf_exists\<close> gives its caller: the tuple \<open>(exists, url, message)\<close> of a
  \<open>return\<close>, or an exception that leaves the function.
\<close>

type_synonym outcome = "bool \<times> string \<times> string"

datatype result = Returned outcome | Raised exc

text \<open>\<open>response.headers.get(name, default)\<close>.\<close>

definition headers_get :: "response \<Rightarrow> string \<Rightarrow> string \<Rightarrow> string" where
  "headers_get r name dflt = (case headers r name of None \<Rightarrow> dflt | Some v \<Rightarrow> v)"

text \<open>Lines 40 to 48: the three \<open>return\<close>s on a response.\<close>

definition on_response :: "string \<Rightarrow> response \<Rightarrow> outcome" where
  "on_response url r =
     (if status_code r = 200 then
        (let content_type = str_lower (headers_get r ''content-type'' '''') in
         if str_in ''pdf'' content_type then (True, url, ''PDF exists'')
         else (False, url, ''URL exists but not a PDF''))
      else (False, url, ''HTTP Status: '' @ str_int (status_code r)))"

text \<open>
  The message of the \<open>return\<close> in the \<open>except\<close> clause that catches \<open>e\<close> on the last
  attempt (lines 55, 62 and 69); the clauses are tried in the order of the source.
\<close>

definition failure_message :: "exc \<Rightarrow> int \<Rightarrow> string" where
  "failure_message e max_retries =
     (if is_Timeout e then
        ''Connection timeout (failed after '' @ str_int max_retries @ '' attempts)''
      else if is_ConnectionError e then
        ''Connection error (failed after '' @ str_int max_retries @ '' attempts)''
      else
        ''Request error: '' @ exc_str e @ '' (failed after '' @ str_int max_retries
          @ '' attempts)'')"

text \<open>
  The loop of lines 36 to 72 over the attempt numbers still to run
  (\<open>range(1, max_retries + 1)\<close> at the start). A response ends the loop with a
  \<open>return\<close>. An exception that one of the three \<open>except\<close> clauses catches is followed
  by \<open>time.sleep(retry_delay)\<close> and the next attempt when \<open>attempt < max_retries\<close>,
  and by a \<open>return\<close> otherwise; the three clauses differ in their messages only. An
  exception that no clause catches, and one that \<open>time.sleep\<close> raises inside a clause,
  leaves the function. When the range is used up, line 72 returns.
\<close>

fun attempts :: "string \<Rightarrow> int \<Rightarrow> int \<Rightarrow> int list \<Rightarrow> world \<Rightarrow> result \<times> world" where
  "attempts url max_retries retry_delay [] w = (Returned (False, url, ''Unknown error''), w)"
| "attempts url max_retries retry_delay (attempt # rest) w =
     (case requests_head url w of
        (Response r, w1) \<Rightarrow> (Returned (on_response url r), w1)
      | (Raise e, w1) \<Rightarrow>
          if transport_exc e then
            if attempt < max_retries then
              (case time_sleep retry_delay w1 of
                 (Some e', w2) \<Rightarrow> (Raised e', w2)
               | (None, w2) \<Rightarrow> attempts url max_retries retry_delay rest w2)
            else (Returned (False, url, failure_message e max_retries), w1)
          else (Raised e, w1))"

text \<open>\<open>check_pdf_exists(email, event_code, max_retries, retry_delay)\<close>.\<close>

definition check_pdf_exists ::
  "string \<Rightarrow> string \<Rightarrow> int \<Rightarrow> int \<Rightarrow> world \<Rightarrow> result \<times> world" where
  "check_pdf_exists email event_code max_retries retry_delay w =
     (let email_filename = email_to_filename email;
          w0 = log_call (Filename_call email) w;
          url = url_of event_code email_filename
      in attempts url max_retries retry_delay [1..max_retries] w0)"

text \<open>
  The call \<open>check_pdf_exists(email, event_code)\<close>, as line 142 makes it: Python passes
  the defaults \<open>max_retries=5, retry_delay=5\<close> of line 28.
\<close>

definition check_pdf_exists_default :: "string \<Rightarrow> string \<Rightarrow> world \<Rightarrow> result \<times> world" where
  "check_pdf_exists_default email event_code w = check_pdf_exists email event_code 5 5 w"

text \<open>
  The network raises exceptions of the transport only: whatever \<open>requests.head\<close>
  raises is an instance of \<open>RequestException\<close>.
\<close>

definition transport_only :: "world \<Rightarrow> bool" where
  "transport_only w = (\<forall>k url e. net w k url = Raise e \<longrightarrow> transport_exc e)"

text \<open>Reading the log: the arguments of the calls of each kind, in order.\<close>

fun filename_args :: "call list \<Rightarrow> string list" where
  "filename_args [] = []"
| "filename_args (Filename_call email # cs) = email # filename_args cs"
| "filename_args (c # cs) = filename_args cs"

fun check_args :: "call list \<Rightarrow> (string \<times> string) list" where
  "check_args [] = []"
| "check_args (Check_call email event_code # cs) = (email, event_code) # check_args cs"
| "check_args (c # cs) = check_args cs"

fun head_urls :: "call list \<Rightarrow> string list" where
  "head_urls [] = []"
| "head_urls (Head_call url # cs) = url # head_urls cs"
| "head_urls (c # cs) = head_urls cs"

fun sleeps :: "call list \<Rightarrow> int list" where
  "sleeps [] = []"
| "sleeps (Sleep_call d # cs) = d # sleeps cs"
| "sleeps (c # cs) = sleeps cs"

text \<open>The calls made between two worlds of one run.\<close>

definition new_calls :: "world \<Rightarrow> world \<Rightarrow> call list" where
  "new_calls w w' = drop (length (calls w)) (calls w')"

section \<open>The batch\<close>

text \<open>An element of \<open>results\<close>: the tuple \<open>(email, exists, url, message)\<close>.\<close>

type_synonym row = "string \<times> bool \<times> string \<times> string"

text \<open>
  The loop of lines 136 to 163 over the emails still to visit, with the \<open>results\<close>
  built so far. An entry that is empty or has no \<open>@\<close> is skipped by \<open>continue\<close>; the
  others are checked with the default retry policy.
  An exception that leaves \<open>check_pdf_exists\<close> leaves the loop. The index \<open>idx\<close> of
  \<open>enumerate\<close> is used for console output only.
\<close>

fun check_emails ::
  "string \<Rightarrow> string list \<Rightarrow> row list \<Rightarrow> world \<Rightarrow> (exc + row list) \<times> world" where
  "check_emails event_code [] results w = (Inr results, w)"
| "check_emails event_code (email # rest) results w =
     (if email = [] \<or> \<not> str_in ''@'' email then check_emails event_code rest results w
      else
        (case check_pdf_exists_default email event_code
                (log_call (Check_call email event_code) w) of
           (Raised e, w1) \<Rightarrow> (Inl e, w1)
         | (Returned (exists, url, message), w1) \<Rightarrow>
             if exists
             then check_emails event_code rest (results @ [(email, True, url, message)]) w1
             else check_emails event_code rest (results @ [(email, False, url, message)]) w1))"

text \<open>The summary of lines 167 to 169, with the results it is computed from.\<close>

record report =
  r_results :: "row list"
  r_total :: int
  r_success :: int
  r_failed :: int

definition summary :: "row list \<Rightarrow> report" where
  "summary results =
     (let total = int (length results);
          success = sum_list (map (\<lambda>r. 1) (filter (\<lambda>r. fst (snd r)) results));
          failed = total - success
      in \<lparr>r_results = results, r_total = total, r_success = success, r_failed = failed\<rparr>)"

text \<open>
  How \<open>process_event\<close> ends without a summary: \<open>return False\<close> at line 124,
  \<open>return False\<close> in the handler of line 234, which catches the instances of
  \<open>Exception\<close>, or an exception that the handler does not catch and that leaves
  \<open>process_event\<close>.
\<close>

datatype stop = No_emails | Error exc | Uncaught exc

text \<open>
  \<open>process_event\<close> from line 122 to line 169, on the list \<open>emails\<close> that lines 76 to
  120 read from the CSV file. Lines 129 to 132 apply \<open>email_to_filename\<close> to the first
  entry, to show an example of the conversion, before any entry is looked at. The
  report of lines 171 to 232 (console and the two files) is not modelled.
\<close>

definition process_event :: "string \<Rightarrow> string list \<Rightarrow> world \<Rightarrow> (stop + report) \<times> world" where
  "process_event event_code emails w =
     (case emails of
        [] \<Rightarrow> (Inl No_emails, w)
      | example_email # _ \<Rightarrow>
          (let w0 = log_call (Filename_call example_email) w in
           case check_emails event_code emails [] w0 of
             (Inl e, w1) \<Rightarrow> (if is_Exception e then Inl (Error e) else Inl (Uncaught e), w1)
           | (Inr results, w1) \<Rightarrow> (Inr (summary results), w1)))"

text \<open>
  The entries that the specification calls valid, non-empty after trimming and with an
  \<open>@\<close>, in the order of the input; to be compared with the test of line 138.
\<close>

definition valid_entries :: "string list \<Rightarrow> string list" where
  "valid_entries emails = filter (\<lambda>e. str_strip e \<noteq> [] \<and> str_in ''@'' e) emails"

section \<open>Runs used in the statements\<close>

text \<open>
  The world after \<open>k\<close> attempts on \<open>url\<close> that each failed and were each followed by a
  sleep of \<open>d\<close>: \<open>k\<close> answers of the network are used up and \<open>k\<close> rounds are logged.
\<close>

definition after_failures :: "nat \<Rightarrow> string \<Rightarrow> int \<Rightarrow> world \<Rightarrow> world" where
  "after_failures k url d w =
     w\<lparr>net := (\<lambda>j. net w (k + j)),
       calls := calls w @ concat (replicate k [Head_call url, Sleep_call d])\<rparr>"

text \<open>
  Simulated endpoints: one that fails \<open>k\<close> times with \<open>e\<close> and then always answers
  \<open>h\<close>, with an empty log. \<open>answers h\<close> always answers \<open>h\<close>.
\<close>

definition fails_then :: "nat \<Rightarrow> exc \<Rightarrow> head_result \<Rightarrow> world" where
  "fails_then k e h = \<lparr>net = (\<lambda>j url. if j < k then Raise e else h), calls = []\<rparr>"

definition answers :: "head_result \<Rightarrow> world" where
  "answers h = \<lparr>net = (\<lambda>j url. h), calls = []\<rparr>"

definition a_timeout :: exc where
  "a_timeout =
     \<lparr>is_Timeout = True, is_ConnectionError = False, is_RequestException = True,
      is_Exception = True, exc_str = ''read timed out''\<rparr>"

definition a_response :: "int \<Rightarrow> string option \<Rightarrow> response" where
  "a_response status content_type =
     \<lparr>status_code = status, headers = Map.empty(''content-type'' := content_type)\<rparr>"

section \<open>Properties\<close>

lemma str_replace_at: "str_replace ''@'' ''_'' s = map (\<lambda>c. if c = CHR ''@'' then CHR ''_'' else c) s"
proof (induction s)
  case Nil
  show ?case by (simp add: str_replace.simps)
next
  case (Cons c s)
  show ?case
    by (subst str_replace.simps) (simp add: Cons.IH)
qed

subsection \<open>The log and the attempts\<close>

lemma calls_log_call [simp]: "calls (log_call c w) = calls w @ [c]"
  by (simp add: log_call_def)

lemma net_log_call [simp]: "net (log_call c w) = net w"
  by (simp add: log_call_def)

lemma requests_head_fst [simp]: "fst (requests_head url w) = net w 0 url"
  by (simp add: requests_head_def)

lemma requests_head_calls [simp]: "calls (snd (requests_head url w)) = calls w @ [Head_call url]"
  by (simp add: requests_head_def)

lemma requests_head_net [simp]: "net (snd (requests_head url w)) k = net w (Suc k)"
  by (simp add: requests_head_def)

lemma transport_only_log_call [simp]: "transport_only (log_call c w) = transport_only w"
  by (simp add: transport_only_def)

lemma transport_only_requests_head: "transport_only w \<Longrightarrow> transport_only (snd (requests_head url w))"
  by (simp add: transport_only_def)

lemma attempts_response:
  assumes "a \<le> n" and "net w 0 url = Response r"
  shows "attempts url n d [a..n] w = (Returned (on_response url r), snd (requests_head url w))"
proof -
  have "[a..n] = a # [a + 1..n]" using assms(1) by (rule upto_rec1)
  then show ?thesis using assms(2) by (simp add: requests_head_def)
qed


lemma attempts_failures:
  assumes "\<forall>j<k. \<exists>e. net w j url = Raise e \<and> transport_exc e"
    and "k = 0 \<or> accepts_delay d" and "a + int k \<le> n"
  shows "attempts url n d [a..n] w = attempts url n d [a + int k..n] (after_failures k url d w)"
  using assms
proof (induction k arbitrary: a w)
  case 0
  show ?case by (simp add: after_failures_def)
next
  case (Suc k)
  from Suc.prems(1) obtain e where e: "net w 0 url = Raise e" "transport_exc e" by auto
  from Suc.prems(2) have d: "accepts_delay d" by simp
  from Suc.prems(3) have a: "a < n" "a \<le> n" by simp_all
  define w2 where "w2 = log_call (Sleep_call d) (snd (requests_head url w))"
  have step: "attempts url n d [a..n] w = attempts url n d [a + 1..n] w2"
    using e d a by (simp add: upto_rec1 [OF a(2)] requests_head_def time_sleep_def accepts_delay_def w2_def)
  have fails: "\<forall>j<k. \<exists>e. net w2 j url = Raise e \<and> transport_exc e"
    using Suc.prems(1) by (simp add: w2_def)
  have "attempts url n d [a + 1..n] w2 = attempts url n d [a + 1 + int k..n] (after_failures k url d w2)"
    using Suc.prems(3) by (intro Suc.IH fails) (simp_all add: d)
  moreover have "after_failures k url d w2 = after_failures (Suc k) url d w"
    by (simp add: after_failures_def w2_def requests_head_def log_call_def)
  ultimately show ?case using step by (simp add: add.commute add.left_commute)
qed

lemma new_calls_append [simp]: "calls w' = calls w @ xs \<Longrightarrow> new_calls w w' = xs"
  by (simp add: new_calls_def)

lemma head_urls_append [simp]: "head_urls (xs @ ys) = head_urls xs @ head_urls ys"
  by (induction xs rule: head_urls.induct) simp_all

lemma sleeps_append [simp]: "sleeps (xs @ ys) = sleeps xs @ sleeps ys"
  by (induction xs rule: sleeps.induct) simp_all

lemma filename_args_append [simp]: "filename_args (xs @ ys) = filename_args xs @ filename_args ys"
  by (induction xs rule: filename_args.induct) simp_all

lemma check_args_append [simp]: "check_args (xs @ ys) = check_args xs @ check_args ys"
  by (induction xs rule: check_args.induct) simp_all

lemma head_urls_rounds [simp]:
  "head_urls (concat (replicate k [Head_call url, Sleep_call d])) = replicate k url"
  by (induction k) simp_all

lemma sleeps_rounds [simp]:
  "sleeps (concat (replicate k [Head_call url, Sleep_call d])) = replicate k d"
  by (induction k) simp_all

lemma check_pdf_exists_unfold:
  "check_pdf_exists email event_code n d w =
     attempts (url_of event_code (email_to_filename email)) n d [1..n]
       (log_call (Filename_call email) w)"
  by (simp add: check_pdf_exists_def)

lemma check_pdf_exists_response:
  assumes "url = url_of event_code (email_to_filename email)"
    and "int k < n"
    and "\<forall>j<k. \<exists>e. net w j url = Raise e \<and> transport_exc e"
    and "net w k url = Response r"
    and "k = 0 \<or> accepts_delay d"
  shows "fst (check_pdf_exists email event_code n d w) = Returned (on_response url r)"
    and "new_calls w (snd (check_pdf_exists email event_code n d w)) =
           Filename_call email # concat (replicate k [Head_call url, Sleep_call d]) @ [Head_call url]"
proof -
  define w0 where "w0 = log_call (Filename_call email) w"
  have fails: "\<forall>j<k. \<exists>e. net w0 j url = Raise e \<and> transport_exc e"
    using assms(3) by (simp add: w0_def)
  have "attempts url n d [1..n] w0 = attempts url n d [1 + int k..n] (after_failures k url d w0)"
    using assms(2,5) by (intro attempts_failures fails) simp_all
  also have "\<dots> = (Returned (on_response url r), snd (requests_head url (after_failures k url d w0)))"
    using assms(2,4) by (intro attempts_response) (simp_all add: after_failures_def w0_def)
  finally have eq: "check_pdf_exists email event_code n d w =
      (Returned (on_response url r), snd (requests_head url (after_failures k url d w0)))"
    by (simp add: check_pdf_exists_unfold assms(1) w0_def)
  show "fst (check_pdf_exists email event_code n d w) = Returned (on_response url r)"
    by (simp add: eq)
  show "new_calls w (snd (check_pdf_exists email event_code n d w)) =
           Filename_call email # concat (replicate k [Head_call url, Sleep_call d]) @ [Head_call url]"
    by (rule new_calls_append) (simp add: eq after_failures_def w0_def)
qed


lemma attempts_returns:
  assumes "transport_only w" and "accepts_delay d"
  shows "\<exists>outcome. fst (attempts url n d as w) = Returned outcome"
  using assms(1)
proof (induction as arbitrary: w)
  case Nil
  show ?case by auto
next
  case (Cons a as)
  show ?case
  proof (cases "net w 0 url")
    case (Response r)
    then show ?thesis by (simp add: requests_head_def del: split_paired_Ex)
  next
    case (Raise e)
    with Cons.prems have te: "transport_exc e" by (auto simp: transport_only_def)
    have "transport_only (log_call (Sleep_call d) (snd (requests_head url w)))"
      using Cons.prems by (simp add: transport_only_requests_head)
    from Cons.IH [OF this] show ?thesis
      using Raise te assms(2) by (simp add: requests_head_def time_sleep_def accepts_delay_def del: split_paired_Ex)
  qed
qed

lemma sleep_errors_not_transport [simp]:
  "\<not> transport_exc ValueError" "\<not> transport_exc OverflowError" "\<not> transport_exc OSError"
  by (simp_all add: transport_exc_def ValueError_def OverflowError_def OSError_def)


subsection \<open>The probe\<close>

lemma accepts_delay_examples [simp]:
  "accepts_delay 5" "accepts_delay 2" "\<not> accepts_delay (- 1)" "\<not> accepts_delay 9223372037"
  by (simp_all add: accepts_delay_def)

lemma sim_simps:
  "net (answers h) k u = h" "calls (answers h) = []"
  "net (fails_then n e h) k u = (if k < n then Raise e else h)" "calls (fails_then n e h) = []"
  by (simp_all add: answers_def fails_then_def)


lemma transport_exc_a_timeout [simp]: "transport_exc a_timeout"
  by (simp add: transport_exc_def a_timeout_def)

lemma transport_only_answers_Response [simp]: "transport_only (answers (Response r))"
  by (simp add: transport_only_def answers_def)

lemma transport_only_answers_Raise [simp]: "transport_exc e \<Longrightarrow> transport_only (answers (Raise e))"
  by (simp add: transport_only_def answers_def)

lemma url_example:
  "url_of ''G'' (email_to_filename ''a@x.com'')
     = ''https://bbpvpbekasi.kemnaker.go.id/bulanvokasi/sertifikatbv/G/a_x.com.pdf''"
  by (simp add: url_of_def email_to_filename_def str_replace_at)




lemma attempts_calls:
  "\<exists>xs. calls (snd (attempts url n d as w)) = calls w @ xs
        \<and> filename_args xs = [] \<and> check_args xs = [] \<and> (as \<noteq> [] \<longrightarrow> head_urls xs \<noteq> [])"
proof (induction as arbitrary: w)
  case Nil
  show ?case by simp
next
  case (Cons a as)
  define w1 where "w1 = snd (requests_head url w)"
  define w2 where "w2 = log_call (Sleep_call d) w1"
  have c1: "calls w1 = calls w @ [Head_call url]" by (simp add: w1_def)
  from Cons.IH [of w2] obtain xs where xs:
    "calls (snd (attempts url n d as w2)) = calls w2 @ xs" "filename_args xs = []" "check_args xs = []"
    by blast
  have c2: "calls (snd (attempts url n d as w2)) = calls w @ (Head_call url # Sleep_call d # xs)"
    using xs(1) by (simp add: w2_def c1)
  have "snd (attempts url n d (a # as) w) = w1 \<or> snd (attempts url n d (a # as) w) = snd (attempts url n d as w2)"
    by (cases "net w 0 url")
       (simp_all add: requests_head_def time_sleep_def accepts_delay_def w1_def w2_def)
  then show ?case
  proof
    assume "snd (attempts url n d (a # as) w) = w1"
    then have "calls (snd (attempts url n d (a # as) w)) = calls w @ [Head_call url]"
      by (simp add: c1)
    then show ?thesis by (intro exI [of _ "[Head_call url]"]) simp
  next
    assume "snd (attempts url n d (a # as) w) = snd (attempts url n d as w2)"
    then have "calls (snd (attempts url n d (a # as) w)) = calls w @ (Head_call url # Sleep_call d # xs)"
      by (simp add: c2)
    then show ?thesis by (intro exI [of _ "Head_call url # Sleep_call d # xs"]) (simp add: xs)
  qed
qed

lemma check_pdf_exists_calls:
  "\<exists>xs. calls (snd (check_pdf_exists email event_code n d w)) = calls w @ Filename_call email # xs
        \<and> filename_args xs = [] \<and> check_args xs = [] \<and> (1 \<le> n \<longrightarrow> head_urls xs \<noteq> [])"
proof -
  from attempts_calls [of "url_of event_code (email_to_filename email)" n d "[1..n]"
      "log_call (Filename_call email) w"]
  obtain xs where "calls (snd (check_pdf_exists email event_code n d w)) = calls w @ Filename_call email # xs"
    "filename_args xs = []" "check_args xs = []" "[1..n] \<noteq> [] \<longrightarrow> head_urls xs \<noteq> []"
    by (auto simp: check_pdf_exists_unfold)
  then show ?thesis by (intro exI [of _ xs]) simp
qed

text \<open>
  Claim C1, as amended. When the transport completes an attempt with status exactly 200
  and a content type that contains \<open>pdf\<close> in lower case, the probe returns the
  confirmed outcome \<open>(True, url, "PDF exists")\<close>, and the request that got the
  response is its last call: after \<open>k\<close> failed attempts, each followed by one sleep,
  the log holds \<open>k + 1\<close> requests, and with \<open>k = 0\<close> one request and no sleep.
\<close>

theorem confirmed_on_200_pdf:
  assumes "url = url_of event_code (email_to_filename email)"
    and "int k < max_retries"
    and "\<forall>j<k. \<exists>e. net w j url = Raise e \<and> transport_exc e"
    and "k = 0 \<or> accepts_delay retry_delay"
    and "net w k url = Response r"
    and "status_code r = 200"
    and "str_in ''pdf'' (str_lower (headers_get r ''content-type'' ''''))"
  shows "fst (check_pdf_exists email event_code max_retries retry_delay w)
           = Returned (True, url, ''PDF exists'')
       \<and> new_calls w (snd (check_pdf_exists email event_code max_retries retry_delay w))
           = Filename_call email # concat (replicate k [Head_call url, Sleep_call retry_delay])
               @ [Head_call url]"
  using check_pdf_exists_response [OF assms(1,2,3,5,4)] assms(6,7)
  by (simp add: on_response_def)

text \<open>
  An endpoint that answers 200 with \<open>application/pdf\<close>: one request, confirmed.
  One that times out once before it answers: two requests with one sleep between them,
  and none after the answer.
\<close>

theorem confirmed_on_200_pdf_witness:
  "fst (check_pdf_exists ''a@x.com'' ''G'' 5 5 (answers (Response (a_response 200 (Some ''application/pdf'')))))
     = Returned (True, ''https://bbpvpbekasi.kemnaker.go.id/bulanvokasi/sertifikatbv/G/a_x.com.pdf'', ''PDF exists'')
   \<and> new_calls (answers (Response (a_response 200 (Some ''application/pdf''))))
        (snd (check_pdf_exists ''a@x.com'' ''G'' 5 5 (answers (Response (a_response 200 (Some ''application/pdf''))))))
     = [Filename_call ''a@x.com'',
        Head_call ''https://bbpvpbekasi.kemnaker.go.id/bulanvokasi/sertifikatbv/G/a_x.com.pdf'']
   \<and> fst (check_pdf_exists ''a@x.com'' ''G'' 5 5
          (fails_then 1 a_timeout (Response (a_response 200 (Some ''application/pdf'')))))
     = Returned (True, ''https://bbpvpbekasi.kemnaker.go.id/bulanvokasi/sertifikatbv/G/a_x.com.pdf'', ''PDF exists'')
   \<and> new_calls (fails_then 1 a_timeout (Response (a_response 200 (Some ''application/pdf''))))
        (snd (check_pdf_exists ''a@x.com'' ''G'' 5 5
          (fails_then 1 a_timeout (Response (a_response 200 (Some ''application/pdf''))))))
     = [Filename_call ''a@x.com'',
        Head_call ''https://bbpvpbekasi.kemnaker.go.id/bulanvokasi/sertifikatbv/G/a_x.com.pdf'',
        Sleep_call 5,
        Head_call ''https://bbpvpbekasi.kemnaker.go.id/bulanvokasi/sertifikatbv/G/a_x.com.pdf'']"
  using confirmed_on_200_pdf [of "''https://bbpvpbekasi.kemnaker.go.id/bulanvokasi/sertifikatbv/G/a_x.com.pdf''"
      "''G''" "''a@x.com''" 0 5 "answers (Response (a_response 200 (Some ''application/pdf'')))" 5
      "a_response 200 (Some ''application/pdf'')"]
    confirmed_on_200_pdf [of "''https://bbpvpbekasi.kemnaker.go.id/bulanvokasi/sertifikatbv/G/a_x.com.pdf''"
      "''G''" "''a@x.com''" 1 5
      "fails_then 1 a_timeout (Response (a_response 200 (Some ''application/pdf'')))" 5
      "a_response 200 (Some ''application/pdf'')"]
  by (simp add: url_example sim_simps a_response_def headers_get_def str_lower_def char_lower_def)

text \<open>
  Claim C1 as it is written speaks of any 2xx status. Line 40 compares the status with
  200: a response 203 with a PDF content type is reported as \<open>HTTP Status: 203\<close>, with
  the found flag false.
\<close>

theorem other_2xx_not_confirmed:
  "200 \<le> status_code (a_response 203 (Some ''application/pdf''))
   \<and> status_code (a_response 203 (Some ''application/pdf'')) < 300
   \<and> str_in ''pdf'' (str_lower (headers_get (a_response 203 (Some ''application/pdf'')) ''content-type'' ''''))
   \<and> fst (check_pdf_exists ''a@x.com'' ''G'' 5 5 (answers (Response (a_response 203 (Some ''application/pdf'')))))
     = Returned (False, ''https://bbpvpbekasi.kemnaker.go.id/bulanvokasi/sertifikatbv/G/a_x.com.pdf'', ''HTTP Status: 203'')"
  using check_pdf_exists_response(1) [of "''https://bbpvpbekasi.kemnaker.go.id/bulanvokasi/sertifikatbv/G/a_x.com.pdf''"
    "''G''" "''a@x.com''" 0 5 "answers (Response (a_response 203 (Some ''application/pdf'')))"
    "a_response 203 (Some ''application/pdf'')" 5]
  by (simp add: url_example sim_simps a_response_def headers_get_def str_lower_def char_lower_def
      on_response_def str_int_def str_nat.simps)







text \<open>
  Claim C4. The address is the fixed prefix, \<open>/\<close>, the event code, \<open>/\<close>, the email
  with each \<open>@\<close> replaced by \<open>_\<close> and every other character kept, and \<open>.pdf\<close>; the
  address of \<open>A@b.com\<close> ends with \<open>A_b.com.pdf\<close>.
\<close>

theorem address_template:
  "url_of event_code (email_to_filename email)
     = ''https://bbpvpbekasi.kemnaker.go.id/bulanvokasi/sertifikatbv'' @ ''/'' @ event_code @ ''/''
         @ map (\<lambda>c. if c = CHR ''@'' then CHR ''_'' else c) email @ ''.pdf''
   \<and> suffix ''A_b.com.pdf'' (url_of event_code (email_to_filename ''A@b.com''))"
  by (simp add: url_of_def email_to_filename_def str_replace_at suffix_def)

text \<open>
  Claim C6, as amended. When the transport completes an attempt with status exactly 200
  and a content type that does not contain \<open>pdf\<close> in lower case, the probe returns
  \<open>(False, url, "URL exists but not a PDF")\<close>, a message that no status report
  \<open>HTTP Status: n\<close> equals, and the request that got the response is its last call.
\<close>

theorem wrong_type_on_200_without_pdf:
  assumes "url = url_of event_code (email_to_filename email)"
    and "int k < max_retries"
    and "\<forall>j<k. \<exists>e. net w j url = Raise e \<and> transport_exc e"
    and "k = 0 \<or> accepts_delay retry_delay"
    and "net w k url = Response r"
    and "status_code r = 200"
    and "\<not> str_in ''pdf'' (str_lower (headers_get r ''content-type'' ''''))"
  shows "fst (check_pdf_exists email event_code max_retries retry_delay w)
           = Returned (False, url, ''URL exists but not a PDF'')
       \<and> new_calls w (snd (check_pdf_exists email event_code max_retries retry_delay w))
           = Filename_call email # concat (replicate k [Head_call url, Sleep_call retry_delay])
               @ [Head_call url]
       \<and> (\<forall>status. ''URL exists but not a PDF'' \<noteq> ''HTTP Status: '' @ str_int status)"
  using check_pdf_exists_response [OF assms(1,2,3,5,4)] assms(6,7)
  by (simp add: on_response_def)

text \<open>An endpoint that answers 200 with \<open>text/html\<close>: one request, no sleep.\<close>

theorem wrong_type_on_200_without_pdf_witness:
  "fst (check_pdf_exists ''a@x.com'' ''G'' 5 5 (answers (Response (a_response 200 (Some ''text/html'')))))
     = Returned (False, ''https://bbpvpbekasi.kemnaker.go.id/bulanvokasi/sertifikatbv/G/a_x.com.pdf'',
         ''URL exists but not a PDF'')
   \<and> new_calls (answers (Response (a_response 200 (Some ''text/html''))))
        (snd (check_pdf_exists ''a@x.com'' ''G'' 5 5 (answers (Response (a_response 200 (Some ''text/html''))))))
     = [Filename_call ''a@x.com'',
        Head_call ''https://bbpvpbekasi.kemnaker.go.id/bulanvokasi/sertifikatbv/G/a_x.com.pdf'']"
  using wrong_type_on_200_without_pdf [of
    "''https://bbpvpbekasi.kemnaker.go.id/bulanvokasi/sertifikatbv/G/a_x.com.pdf''"
    "''G''" "''a@x.com''" 0 5 "answers (Response (a_response 200 (Some ''text/html'')))" 5
    "a_response 200 (Some ''text/html'')"]
  by (simp add: url_example sim_simps a_response_def headers_get_def str_lower_def char_lower_def)

text \<open>
  Claim C6 as it is written speaks of a success status, which the specification reads
  as 2xx. A response 204 with \<open>text/html\<close> is reported as \<open>HTTP Status: 204\<close>, the
  message of an absent resource.
\<close>

theorem other_2xx_not_wrong_type:
  "200 \<le> status_code (a_response 204 (Some ''text/html''))
   \<and> status_code (a_response 204 (Some ''text/html'')) < 300
   \<and> \<not> str_in ''pdf'' (str_lower (headers_get (a_response 204 (Some ''text/html'')) ''content-type'' ''''))
   \<and> fst (check_pdf_exists ''a@x.com'' ''G'' 5 5 (answers (Response (a_response 204 (Some ''text/html'')))))
     = Returned (False, ''https://bbpvpbekasi.kemnaker.go.id/bulanvokasi/sertifikatbv/G/a_x.com.pdf'',
         ''HTTP Status: 204'')"
  using check_pdf_exists_response(1) [of
    "''https://bbpvpbekasi.kemnaker.go.id/bulanvokasi/sertifikatbv/G/a_x.com.pdf''"
    "''G''" "''a@x.com''" 0 5 "answers (Response (a_response 204 (Some ''text/html'')))"
    "a_response 204 (Some ''text/html'')" 5]
  by (simp add: url_example sim_simps a_response_def headers_get_def str_lower_def char_lower_def
      on_response_def str_int_def str_nat.simps)

text \<open>
  Claim C7. When the transport completes an attempt with a status other than 200 (so
  with every status outside 200 to 299, such as 404), the probe returns
  \<open>(False, url, "HTTP Status: n")\<close> with the status \<open>n\<close> in decimal, and the request
  that got the response is its last call: no retry follows it.
\<close>

theorem not_found_on_other_status:
  assumes "url = url_of event_code (email_to_filename email)"
    and "int k < max_retries"
    and "\<forall>j<k. \<exists>e. net w j url = Raise e \<and> transport_exc e"
    and "k = 0 \<or> accepts_delay retry_delay"
    and "net w k url = Response r"
    and "status_code r \<noteq> 200"
  shows "fst (check_pdf_exists email event_code max_retries retry_delay w)
           = Returned (False, url, ''HTTP Status: '' @ str_int (status_code r))
       \<and> new_calls w (snd (check_pdf_exists email event_code max_retries retry_delay w))
           = Filename_call email # concat (replicate k [Head_call url, Sleep_call retry_delay])
               @ [Head_call url]"
  using check_pdf_exists_response [OF assms(1,2,3,5,4)] assms(6)
  by (simp add: on_response_def)

text \<open>An endpoint that answers 404: one request, no sleep.\<close>

theorem not_found_on_other_status_witness:
  "fst (check_pdf_exists ''a@x.com'' ''G'' 5 5 (answers (Response (a_response 404 (Some ''text/html'')))))
     = Returned (False, ''https://bbpvpbekasi.kemnaker.go.id/bulanvokasi/sertifikatbv/G/a_x.com.pdf'',
         ''HTTP Status: 404'')
   \<and> new_calls (answers (Response (a_response 404 (Some ''text/html''))))
        (snd (check_pdf_exists ''a@x.com'' ''G'' 5 5 (answers (Response (a_response 404 (Some ''text/html''))))))
     = [Filename_call ''a@x.com'',
        Head_call ''https://bbpvpbekasi.kemnaker.go.id/bulanvokasi/sertifikatbv/G/a_x.com.pdf'']"
  using not_found_on_other_status [of
    "''https://bbpvpbekasi.kemnaker.go.id/bulanvokasi/sertifikatbv/G/a_x.com.pdf''"
    "''G''" "''a@x.com''" 0 5 "answers (Response (a_response 404 (Some ''text/html'')))" 5
    "a_response 404 (Some ''text/html'')"]
  by (simp add: url_example sim_simps a_response_def str_int_def str_nat.simps)



subsection \<open>The test of the media type\<close>

lemma str_in_sublist: "str_in sub s \<longleftrightarrow> sublist sub s"
  by (induction s) (simp_all add: sublist_Cons_right)

lemma sublist_map_iff: "sublist xs (map f ys) \<longleftrightarrow> (\<exists>zs. sublist zs ys \<and> map f zs = xs)"
proof
  assume "sublist xs (map f ys)"
  then obtain ps ss where e: "map f ys = ps @ xs @ ss"
    unfolding sublist_def by blast
  define zs where "zs = take (length xs) (drop (length ps) ys)"
  have "map f zs = take (length xs) (drop (length ps) (map f ys))"
    by (simp only: zs_def take_map drop_map)
  also have "\<dots> = xs"
    by (simp only: e) simp
  finally have m: "map f zs = xs" .
  have "ys = take (length ps) ys @ zs @ drop (length xs) (drop (length ps) ys)"
    by (simp only: zs_def append_take_drop_id)
  then have "sublist zs ys"
    unfolding sublist_def by blast
  with m show "\<exists>zs. sublist zs ys \<and> map f zs = xs" by blast
next
  assume "\<exists>zs. sublist zs ys \<and> map f zs = xs"
  then obtain zs ps ss where "ys = ps @ zs @ ss" and "map f zs = xs"
    unfolding sublist_def by blast
  then have "map f ys = map f ps @ xs @ map f ss" by simp
  then show "sublist xs (map f ys)"
    unfolding sublist_def by blast
qed

text \<open>
  Claim C10, as amended. The media type is tested on a response with status exactly
  200 only. For the response that completes an attempt, the probe returns the confirmed
  outcome exactly when the status is 200 and \<open>pdf\<close> occurs in the lower-cased value
  of the \<open>content-type\<close> header; that is, exactly when some contiguous run of the
  header value is \<open>pdf\<close> up to case. A response 200 without that header is read as
  one with an empty media type and gives \<open>URL exists but not a PDF\<close>.
\<close>

theorem media_type_check:
  assumes "url = url_of event_code (email_to_filename email)"
    and "int k < max_retries"
    and "\<forall>j<k. \<exists>e. net w j url = Raise e \<and> transport_exc e"
    and "k = 0 \<or> accepts_delay retry_delay"
    and "net w k url = Response r"
  shows "(fst (check_pdf_exists email event_code max_retries retry_delay w)
            = Returned (True, url, ''PDF exists'')
          \<longleftrightarrow> status_code r = 200
              \<and> str_in ''pdf'' (str_lower (headers_get r ''content-type'' '''')))
       \<and> ((\<exists>address message. fst (check_pdf_exists email event_code max_retries retry_delay w)
            = Returned (True, address, message))
          \<longleftrightarrow> status_code r = 200
              \<and> (\<exists>sub. sublist sub (headers_get r ''content-type'' '''') \<and> str_lower sub = ''pdf''))
       \<and> (status_code r = 200 \<and> headers r ''content-type'' = None \<longrightarrow>
            fst (check_pdf_exists email event_code max_retries retry_delay w)
              = Returned (False, url, ''URL exists but not a PDF''))"
proof -
  let ?ct = "headers_get r ''content-type'' ''''"
  let ?R = "fst (check_pdf_exists email event_code max_retries retry_delay w)"
  have ci: "str_in ''pdf'' (str_lower ?ct) \<longleftrightarrow> (\<exists>sub. sublist sub ?ct \<and> str_lower sub = ''pdf'')"
    unfolding str_in_sublist str_lower_def by (rule sublist_map_iff)
  have R: "?R = Returned (on_response url r)"
    by (rule check_pdf_exists_response(1) [OF assms(1,2,3,5,4)])
  have found: "fst (on_response url r) \<longleftrightarrow> status_code r = 200 \<and> str_in ''pdf'' (str_lower ?ct)"
    by (simp add: on_response_def Let_def)
  have confirmed: "on_response url r = (True, url, ''PDF exists'')
      \<longleftrightarrow> status_code r = 200 \<and> str_in ''pdf'' (str_lower ?ct)"
    by (simp add: on_response_def Let_def)
  have one: "?R = Returned (True, url, ''PDF exists'')
      \<longleftrightarrow> status_code r = 200 \<and> str_in ''pdf'' (str_lower ?ct)"
    unfolding R using confirmed by simp
  have "(\<exists>address message. ?R = Returned (True, address, message)) \<longleftrightarrow> fst (on_response url r)"
    unfolding R by (cases "on_response url r") auto
  then have two: "(\<exists>address message. ?R = Returned (True, address, message))
      \<longleftrightarrow> status_code r = 200 \<and> (\<exists>sub. sublist sub ?ct \<and> str_lower sub = ''pdf'')"
    unfolding found ci .
  have "?ct = []" if "headers r ''content-type'' = None"
    using that by (simp add: headers_get_def)
  then have three: "status_code r = 200 \<and> headers r ''content-type'' = None \<longrightarrow>
      ?R = Returned (False, url, ''URL exists but not a PDF'')"
    unfolding R by (simp add: on_response_def Let_def str_lower_def)
  from one two three show ?thesis by (intro conjI)
qed

lemma str_lower_example: "str_lower ''Application/PDF'' = ''application/pdf''"
  by code_simp

lemma str_lower_Nil [simp]: "str_lower [] = []"
  by (simp add: str_lower_def)

text \<open>
  An endpoint that answers 200 with \<open>Application/PDF\<close> is confirmed; one that
  answers 200 without a content type is not.
\<close>

theorem media_type_check_witness:
  "fst (check_pdf_exists ''a@x.com'' ''G'' 5 5 (answers (Response (a_response 200 (Some ''Application/PDF'')))))
     = Returned (True, ''https://bbpvpbekasi.kemnaker.go.id/bulanvokasi/sertifikatbv/G/a_x.com.pdf'',
         ''PDF exists'')
   \<and> headers (a_response 200 None) ''content-type'' = None
   \<and> fst (check_pdf_exists ''a@x.com'' ''G'' 5 5 (answers (Response (a_response 200 None))))
     = Returned (False, ''https://bbpvpbekasi.kemnaker.go.id/bulanvokasi/sertifikatbv/G/a_x.com.pdf'',
         ''URL exists but not a PDF'')"
  using media_type_check [of
      "''https://bbpvpbekasi.kemnaker.go.id/bulanvokasi/sertifikatbv/G/a_x.com.pdf''"
      "''G''" "''a@x.com''" 0 5 "answers (Response (a_response 200 (Some ''Application/PDF'')))" 5
      "a_response 200 (Some ''Application/PDF'')"]
    media_type_check [of
      "''https://bbpvpbekasi.kemnaker.go.id/bulanvokasi/sertifikatbv/G/a_x.com.pdf''"
      "''G''" "''a@x.com''" 0 5 "answers (Response (a_response 200 None))" 5
      "a_response 200 None"]
  by (simp add: url_example sim_simps a_response_def headers_get_def str_lower_example
      del: split_paired_Ex)

text \<open>
  Claim C10 as it is written speaks of every success response. A response 202 with
  \<open>application/pdf\<close> is not confirmed, and a response 202 without a content type is
  reported as \<open>HTTP Status: 202\<close>, not as a wrong type: neither reaches the test
  of the media type.
\<close>

theorem pdf_media_type_on_other_2xx:
  "200 \<le> status_code (a_response 202 (Some ''application/pdf''))
   \<and> status_code (a_response 202 (Some ''application/pdf'')) < 300
   \<and> str_in ''pdf'' (str_lower (headers_get (a_response 202 (Some ''application/pdf'')) ''content-type'' ''''))
   \<and> fst (check_pdf_exists ''a@x.com'' ''G'' 5 5 (answers (Response (a_response 202 (Some ''application/pdf'')))))
     = Returned (False, ''https://bbpvpbekasi.kemnaker.go.id/bulanvokasi/sertifikatbv/G/a_x.com.pdf'',
         ''HTTP Status: 202'')
   \<and> headers (a_response 202 None) ''content-type'' = None
   \<and> fst (check_pdf_exists ''a@x.com'' ''G'' 5 5 (answers (Response (a_response 202 None))))
     = Returned (False, ''https://bbpvpbekasi.kemnaker.go.id/bulanvokasi/sertifikatbv/G/a_x.com.pdf'',
         ''HTTP Status: 202'')"
  using check_pdf_exists_response(1) [of
      "''https://bbpvpbekasi.kemnaker.go.id/bulanvokasi/sertifikatbv/G/a_x.com.pdf''"
      "''G''" "''a@x.com''" 0 5 "answers (Response (a_response 202 (Some ''application/pdf'')))"
      "a_response 202 (Some ''application/pdf'')" 5]
    check_pdf_exists_response(1) [of
      "''https://bbpvpbekasi.kemnaker.go.id/bulanvokasi/sertifikatbv/G/a_x.com.pdf''"
      "''G''" "''a@x.com''" 0 5 "answers (Response (a_response 202 None))"
      "a_response 202 None" 5]
  by (simp add: url_example sim_simps a_response_def headers_get_def str_lower_def char_lower_def
      on_response_def str_int_def str_nat.simps)

subsection \<open>The batch\<close>

lemma attempts_transport_only:
  "transport_only w \<Longrightarrow> transport_only (snd (attempts url n d as w))"
proof (induction as arbitrary: w)
  case Nil
  then show ?case by simp
next
  case (Cons a as)
  define w1 where "w1 = snd (requests_head url w)"
  define w2 where "w2 = log_call (Sleep_call d) w1"
  have t1: "transport_only w1"
    using Cons.prems by (simp add: w1_def transport_only_requests_head)
  then have t2: "transport_only (snd (attempts url n d as w2))"
    by (intro Cons.IH) (simp add: w2_def)
  have "snd (attempts url n d (a # as) w) = w1
      \<or> snd (attempts url n d (a # as) w) = snd (attempts url n d as w2)"
    by (cases "net w 0 url")
       (simp_all add: requests_head_def time_sleep_def accepts_delay_def w1_def w2_def)
  with t1 t2 show ?case by auto
qed

lemma str_in_at_iff: "str_in ''@'' s \<longleftrightarrow> CHR ''@'' \<in> set s"
  by (induction s) auto

lemma in_set_dropWhile: "x \<in> set xs \<Longrightarrow> \<not> P x \<Longrightarrow> x \<in> set (dropWhile P xs)"
  by (induction xs) auto

lemma at_not_space: "\<not> char_isspace CHR ''@''"
  by (simp add: char_isspace_def)

lemma str_strip_at: "str_in ''@'' s \<Longrightarrow> str_strip s \<noteq> []"
proof -
  assume "str_in ''@'' s"
  then have "CHR ''@'' \<in> set s" by (simp add: str_in_at_iff)
  then have "CHR ''@'' \<in> set (dropWhile char_isspace s)"
    by (rule in_set_dropWhile) (rule at_not_space)
  then have "CHR ''@'' \<in> set (rev (dropWhile char_isspace s))" by simp
  then have "CHR ''@'' \<in> set (dropWhile char_isspace (rev (dropWhile char_isspace s)))"
    by (rule in_set_dropWhile) (rule at_not_space)
  then have "dropWhile char_isspace (rev (dropWhile char_isspace s)) \<noteq> []"
    by (cases "dropWhile char_isspace (rev (dropWhile char_isspace s))") simp_all
  then show "str_strip s \<noteq> []" by (simp add: str_strip_def)
qed

lemma valid_iff:
  "(str_strip e \<noteq> [] \<and> str_in ''@'' e) \<longleftrightarrow> \<not> (e = [] \<or> \<not> str_in ''@'' e)"
  using str_strip_at [of e] by auto

lemma check_pdf_exists_default_run:
  assumes "transport_only w"
  shows "\<exists>found url message w' xs.
           check_pdf_exists_default email event_code w = (Returned (found, url, message), w')
         \<and> transport_only w' \<and> calls w' = calls w @ Filename_call email # xs
         \<and> filename_args xs = [] \<and> check_args xs = []"
proof -
  let ?R = "check_pdf_exists email event_code 5 5 w"
  let ?w0 = "log_call (Filename_call email) w"
  have t0: "transport_only ?w0" using assms by simp
  from attempts_returns [OF t0, of 5 "url_of event_code (email_to_filename email)" 5 "[1..5]"]
  obtain outcome where "fst ?R = Returned outcome"
    by (auto simp: check_pdf_exists_unfold simp del: split_paired_Ex)
  then obtain found url message where out: "fst ?R = Returned (found, url, message)"
    by (cases outcome) auto
  have t: "transport_only (snd ?R)"
    using attempts_transport_only [OF t0] by (simp add: check_pdf_exists_unfold)
  from check_pdf_exists_calls [of email event_code 5 5 w]
  obtain xs where xs: "calls (snd ?R) = calls w @ Filename_call email # xs"
    "filename_args xs = []" "check_args xs = []"
    by blast
  have "check_pdf_exists_default email event_code w = (Returned (found, url, message), snd ?R)"
    using out by (simp add: check_pdf_exists_default_def prod_eq_iff)
  with t xs show ?thesis by blast
qed

lemma valid_entries_simps:
  "valid_entries [] = []"
  "valid_entries (e # es) = (if e = [] \<or> \<not> str_in ''@'' e then valid_entries es else e # valid_entries es)"
  using valid_iff [of e] by (auto simp: valid_entries_def)

lemma check_emails_run:
  assumes "transport_only w"
  shows "\<exists>rs w' xs.
           check_emails event_code emails results w = (Inr (results @ rs), w')
         \<and> map fst rs = valid_entries emails
         \<and> transport_only w' \<and> calls w' = calls w @ xs
         \<and> filename_args xs = valid_entries emails
         \<and> check_args xs = map (\<lambda>e. (e, event_code)) (valid_entries emails)"
  using assms
proof (induction emails arbitrary: results w)
  case Nil
  then show ?case by (simp add: valid_entries_simps)
next
  case (Cons email rest)
  show ?case
  proof (cases "email = [] \<or> \<not> str_in ''@'' email")
    case True
    from Cons.IH [OF Cons.prems, of results]
    show ?thesis using True by (simp add: valid_entries_simps)
  next
    case False
    let ?w0 = "log_call (Check_call email event_code) w"
    have "transport_only ?w0" using Cons.prems by simp
    from check_pdf_exists_default_run [OF this, of email event_code]
    obtain found url message w1 xs where run:
      "check_pdf_exists_default email event_code ?w0 = (Returned (found, url, message), w1)"
      "transport_only w1" "calls w1 = calls ?w0 @ Filename_call email # xs"
      "filename_args xs = []" "check_args xs = []"
      by blast
    let ?row = "(email, found, url, message)"
    from Cons.IH [OF run(2), of "results @ [?row]"]
    obtain rs w' ys where rest:
      "check_emails event_code rest (results @ [?row]) w1 = (Inr ((results @ [?row]) @ rs), w')"
      "map fst rs = valid_entries rest" "transport_only w'" "calls w' = calls w1 @ ys"
      "filename_args ys = valid_entries rest"
      "check_args ys = map (\<lambda>e. (e, event_code)) (valid_entries rest)"
      by blast
    have step: "check_emails event_code (email # rest) results w
        = check_emails event_code rest (results @ [?row]) w1"
      using False run(1) by (cases found) simp_all
    have c: "calls w' = calls w @ (Check_call email event_code # Filename_call email # xs @ ys)"
      using rest(4) run(3) by simp
    have "check_emails event_code (email # rest) results w = (Inr (results @ (?row # rs)), w')"
      using step rest(1) by simp
    moreover have "map fst (?row # rs) = valid_entries (email # rest)"
      using False rest(2) by (simp add: valid_entries_simps)
    moreover have "filename_args (Check_call email event_code # Filename_call email # xs @ ys)
        = valid_entries (email # rest)"
      using False rest(5) run(4) by (simp add: valid_entries_simps)
    moreover have "check_args (Check_call email event_code # Filename_call email # xs @ ys)
        = map (\<lambda>e. (e, event_code)) (valid_entries (email # rest))"
      using False rest(6) run(5) by (simp add: valid_entries_simps)
    ultimately show ?thesis using rest(3) c by blast
  qed
qed

lemma process_event_run:
  assumes "transport_only w" and "emails \<noteq> []"
  shows "\<exists>rs w' xs.
           process_event event_code emails w = (Inr (summary rs), w')
         \<and> map fst rs = valid_entries emails
         \<and> calls w' = calls w @ Filename_call (hd emails) # xs
         \<and> filename_args xs = valid_entries emails
         \<and> check_args xs = map (\<lambda>e. (e, event_code)) (valid_entries emails)"
proof -
  from assms(2) obtain example_email rest where emails: "emails = example_email # rest"
    by (cases emails) auto
  let ?w0 = "log_call (Filename_call example_email) w"
  have "transport_only ?w0" using assms(1) by simp
  from check_emails_run [OF this, of event_code emails "[]"]
  obtain rs w' xs where run: "check_emails event_code emails [] ?w0 = (Inr rs, w')"
    "map fst rs = valid_entries emails" "calls w' = calls ?w0 @ xs"
    "filename_args xs = valid_entries emails"
    "check_args xs = map (\<lambda>e. (e, event_code)) (valid_entries emails)"
    by auto
  have "process_event event_code emails w = (Inr (summary rs), w')"
    using run(1) by (simp add: process_event_def emails)
  moreover have "calls w' = calls w @ Filename_call (hd emails) # xs"
    using run(3) by (simp add: emails)
  ultimately show ?thesis using run(2,4,5) by blast
qed





lemma sum_ones: "sum_list (map (\<lambda>r. 1) xs) = int (length xs)"
  by (induction xs) simp_all

lemma summary_fields:
  "r_results (summary rs) = rs"
  "r_total (summary rs) = int (length rs)"
  "r_success (summary rs) = int (length (filter (\<lambda>r. fst (snd r)) rs))"
  "r_failed (summary rs) = int (length rs) - int (length (filter (\<lambda>r. fst (snd r)) rs))"
  by (simp_all add: summary_def Let_def sum_ones)


text \<open>
  Claim C5, as amended. For every non-empty input and every network that raises only
  exceptions of the transport, the batch ends with a report, and: the emails of the
  results are exactly the entries that are non-empty after trimming and contain \<open>@\<close>,
  in the order of the input, so an entry that is empty after trimming or lacks \<open>@\<close>
  has no result and every other entry has one; \<open>check_pdf_exists\<close> is called on
  exactly those entries, once each and in that order; and \<open>email_to_filename\<close> is
  called first on the first entry of the input, whatever it is, for the example of
  lines 129 to 132, and after that on exactly those entries.
\<close>

theorem invalid_entries_are_skipped:
  assumes "transport_only w" and "emails \<noteq> []"
  shows "\<exists>rep w'.
           process_event event_code emails w = (Inr rep, w')
         \<and> map fst (r_results rep) = valid_entries emails
         \<and> check_args (new_calls w w') = map (\<lambda>e. (e, event_code)) (valid_entries emails)
         \<and> filename_args (new_calls w w') = hd emails # valid_entries emails"
proof -
  from process_event_run [OF assms, of event_code]
  obtain rs w' xs where run: "process_event event_code emails w = (Inr (summary rs), w')"
    "map fst rs = valid_entries emails"
    "calls w' = calls w @ Filename_call (hd emails) # xs"
    "filename_args xs = valid_entries emails"
    "check_args xs = map (\<lambda>e. (e, event_code)) (valid_entries emails)"
    by blast
  have "new_calls w w' = Filename_call (hd emails) # xs"
    using run(3) by (rule new_calls_append)
  with run show ?thesis by (simp add: summary_fields)
qed

lemma valid_entries_example:
  "valid_entries [''bad'', ''  '', ''a@x.com'', [], ''b@x.com''] = [''a@x.com'', ''b@x.com'']"
  by (simp add: valid_entries_def str_strip_def char_isspace_def)

text \<open>
  A batch with three entries that are skipped: none of them is checked, and the first
  one is the only one of them that \<open>email_to_filename\<close> is called on.
\<close>

theorem invalid_entries_are_skipped_witness:
  "transport_only (answers (Raise a_timeout))
   \<and> (\<exists>rep w'.
        process_event ''G'' [''bad'', ''  '', ''a@x.com'', [], ''b@x.com''] (answers (Raise a_timeout))
          = (Inr rep, w')
      \<and> map fst (r_results rep) = [''a@x.com'', ''b@x.com'']
      \<and> check_args (new_calls (answers (Raise a_timeout)) w') = [(''a@x.com'', ''G''), (''b@x.com'', ''G'')]
      \<and> filename_args (new_calls (answers (Raise a_timeout)) w') = [''bad'', ''a@x.com'', ''b@x.com''])"
  using invalid_entries_are_skipped [of "answers (Raise a_timeout)"
      "[''bad'', ''  '', ''a@x.com'', [], ''b@x.com'']" "''G''"]
  by (simp add: valid_entries_example del: split_paired_Ex)

text \<open>
  Claim C5 as it is written says that the conversion is never applied to an entry
  without \<open>@\<close>. Line 131 applies \<open>email_to_filename\<close> to \<open>emails[0]\<close> before the
  test of line 138: in the batch \<open>bad, a@x.com\<close> it is called on \<open>bad\<close>.
\<close>

theorem filename_of_an_invalid_first_entry:
  "\<not> str_in ''@'' ''bad''
   \<and> ''bad'' \<in> set (filename_args (new_calls (answers (Raise a_timeout))
        (snd (process_event ''G'' [''bad'', ''a@x.com''] (answers (Raise a_timeout))))))"
proof -
  have "transport_only (answers (Raise a_timeout))" by simp
  from process_event_run [OF this, of "[''bad'', ''a@x.com'']" "''G''"]
  obtain rs w' xs where
    "process_event ''G'' [''bad'', ''a@x.com''] (answers (Raise a_timeout)) = (Inr (summary rs), w')"
    "calls w' = calls (answers (Raise a_timeout)) @ Filename_call ''bad'' # xs"
    by auto
  then show ?thesis by (simp add: new_calls_def sim_simps)
qed



end
